theory Spec2Isabelle
  imports Main "HOL-Library.Word" "HOL-Library.Multiset"
begin

section \<open>The password synthesizer of cosmic-cipher\<close>

text \<open>
  The repository holds the synthesizer twice: the exported library function
  \<^verbatim>\<open>generatePasswordFromSeed\<close> (with \<^verbatim>\<open>createRandomGenerator\<close>), and a private copy
  of the same name inside the API route file, whose byte source is an inner helper
  \<^verbatim>\<open>randomValues\<close>. From the destructuring of \<^verbatim>\<open>params\<close> to the final
  \<^verbatim>\<open>join\<close> the two bodies are the same text; they differ only in the byte source.
  The model therefore has one body, \<open>generatePasswordBody\<close>, that takes the byte source
  as a parameter, and one byte source per file.

  TypeScript \<^verbatim>\<open>number\<close>s that hold lengths and minimums are modelled as \<open>int\<close>
  (the route parses them with \<^verbatim>\<open>parseInt\<close>); \<^verbatim>\<open>NaN\<close> and fractions are outside the
  model. Elements of a \<^verbatim>\<open>Uint8Array\<close> are \<open>8 word\<close>. Strings are \<open>string\<close>; every
  character the code handles is ASCII.
\<close>

subsection \<open>Data\<close>

record GenerateParams =
  length_p :: int
  minUpper :: int
  minLower :: int
  minNumbers :: int
  minSymbols :: int
  includeUpper :: bool
  includeLower :: bool
  includeNumbers :: bool
  includeSymbols :: bool

text \<open>The constant \<^verbatim>\<open>CHARSETS\<close>, one definition per property, with the strings of the source.\<close>

definition CHARSETS_uppercase :: string where
  "CHARSETS_uppercase = ''ABCDEFGHIJKLMNPQRSTUVWXYZ''"

definition CHARSETS_lowercase :: string where
  "CHARSETS_lowercase = ''abcdefghijklmnopqrstuvwxyz''"

definition CHARSETS_numbers :: string where
  "CHARSETS_numbers = ''23456789''"

definition CHARSETS_symbols :: string where
  "CHARSETS_symbols = ''!@#$%^&*+-=''"

text \<open>
  Every \<^verbatim>\<open>throw new Error(msg)\<close> of the source is one constructor; \<open>TypeError\<close> is what
  JavaScript raises on \<^verbatim>\<open>undefined.length\<close> when a class that is not in
  \<^verbatim>\<open>availableCharsets\<close> is read.
\<close>

datatype error =
    NoClassSelected        \<comment> \<open>At least one character type must be selected\<close>
  | MinimumsExceedLength   \<comment> \<open>Minimum requirements exceed password length\<close>
  | UpperNotIncluded       \<comment> \<open>Uppercase minimum requirement specified but uppercase not included\<close>
  | LowerNotIncluded       \<comment> \<open>Lowercase minimum requirement specified but lowercase not included\<close>
  | NumbersNotIncluded     \<comment> \<open>Numbers minimum requirement specified but numbers not included\<close>
  | SymbolsNotIncluded     \<comment> \<open>Symbols minimum requirement specified but symbols not included\<close>
  | TypeError

subsection \<open>Decoding the seed\<close>

text \<open>
  \<^verbatim>\<open>Buffer.from(seed, "hex")\<close> is Node's: it reads the string two characters at a time,
  stops at the first pair that is not two hexadecimal digits, and drops a trailing single
  character. It never throws; the result may be empty.
\<close>

definition unhex :: "char \<Rightarrow> nat option" where
  "unhex c =
     (let n = (of_char c :: nat) in
      if 48 \<le> n \<and> n \<le> 57 then Some (n - 48)
      else if 65 \<le> n \<and> n \<le> 70 then Some (n - 55)
      else if 97 \<le> n \<and> n \<le> 102 then Some (n - 87)
      else None)"

fun hex_decode :: "string \<Rightarrow> 8 word list" where
  "hex_decode (a # b # rest) =
     (case unhex a of
        None \<Rightarrow> []
      | Some x \<Rightarrow>
          (case unhex b of
             None \<Rightarrow> []
           | Some y \<Rightarrow> word_of_nat (16 * x + y) # hex_decode rest))"
| "hex_decode _ = []"

subsection \<open>The byte sources\<close>

text \<open>
  \<^verbatim>\<open>result[i] = seedBytes[k % seedBytes.length]\<close>. With an empty \<^verbatim>\<open>seedBytes\<close> the index is
  \<^verbatim>\<open>NaN\<close>, the read gives \<^verbatim>\<open>undefined\<close>, and storing that into a \<^verbatim>\<open>Uint8Array\<close>
  stores 0.
\<close>

definition seed_byte :: "8 word list \<Rightarrow> nat \<Rightarrow> 8 word" where
  "seed_byte bs k = (if bs = [] then 0 else bs ! (k mod length bs))"

text \<open>
  The library's \<^verbatim>\<open>createRandomGenerator\<close> returns a closure over \<^verbatim>\<open>seedBytes\<close> and the
  mutable \<^verbatim>\<open>position\<close>; the closure's state is the record, and a call returns the bytes
  with the state after it.
\<close>

record generator =
  seedBytes :: "8 word list"
  position :: nat

definition createRandomGenerator :: "string \<Rightarrow> generator" where
  "createRandomGenerator seed = \<lparr>seedBytes = hex_decode seed, position = 0\<rparr>"

fun randomValues :: "generator \<Rightarrow> nat \<Rightarrow> 8 word list \<times> generator" where
  "randomValues g 0 = ([], g)"
| "randomValues g (Suc n) =
     (let b = seed_byte (seedBytes g) (position g);
          (bs, g') = randomValues (g\<lparr>position := position g + 1\<rparr>) n
      in (b # bs, g'))"

text \<open>
  The route's inner \<^verbatim>\<open>randomValues\<close> has no position: the loop index \<^verbatim>\<open>i\<close> of each call
  is the index into the seed.
\<close>

definition randomValues_route :: "8 word list \<Rightarrow> nat \<Rightarrow> 8 word list" where
  "randomValues_route sb n = map (\<lambda>i. seed_byte sb i) [0..<n]"

text \<open>\<^verbatim>\<open>randomValues(1)[0]\<close>, the only way either body draws.\<close>

definition draw_lib :: "generator \<Rightarrow> 8 word \<times> generator" where
  "draw_lib g = (let (bs, g') = randomValues g 1 in (bs ! 0, g'))"

definition draw_route :: "8 word list \<Rightarrow> 8 word \<times> 8 word list" where
  "draw_route sb = (randomValues_route sb 1 ! 0, sb)"

subsection \<open>The shared body\<close>

text \<open>
  \<^verbatim>\<open>availableCharsets\<close> is an object filled in the order uppercase, lowercase, numbers,
  symbols; \<^verbatim>\<open>Object.keys\<close> and \<^verbatim>\<open>Object.values\<close> keep that order, so it is an association
  list.
\<close>

definition availableCharsets :: "GenerateParams \<Rightarrow> (string \<times> string) list" where
  "availableCharsets p =
     (if includeUpper p then [(''uppercase'', CHARSETS_uppercase)] else []) @
     (if includeLower p then [(''lowercase'', CHARSETS_lowercase)] else []) @
     (if includeNumbers p then [(''numbers'', CHARSETS_numbers)] else []) @
     (if includeSymbols p then [(''symbols'', CHARSETS_symbols)] else [])"

text \<open>
  One of the five drawing loops:
  \<^verbatim>\<open>for (i = 0; i < n; i++) { idx = randomValues(1)[0] % cs.length; password += cs[idx] }\<close>.
  \<open>cs\<close> is \<open>None\<close> when the property is missing from \<^verbatim>\<open>availableCharsets\<close>; then
  \<^verbatim>\<open>randomValues(1)[0]\<close>, the left operand, is evaluated before \<^verbatim>\<open>cs.length\<close> throws.
  The alphabets are non-empty constants, so \<open>idx\<close> is in range.
  A failure carries the byte source as it is when the exception is thrown, so that what
  was drawn before it can be read off.
\<close>

fun draw_chars ::
  "('s \<Rightarrow> 8 word \<times> 's) \<Rightarrow> string option \<Rightarrow> nat \<Rightarrow> string \<Rightarrow> 's \<Rightarrow>
     (error \<times> 's) + (string \<times> 's)" where
  "draw_chars draw cs 0 password st = Inr (password, st)"
| "draw_chars draw cs (Suc n) password st =
     (let (b, st') = draw st in
      case cs of
        None \<Rightarrow> Inl (TypeError, st')
      | Some a \<Rightarrow>
          (let randomIndex = unat b mod length a
           in draw_chars draw cs n (password @ [a ! randomIndex]) st'))"

text \<open>
  The shuffle loop, from index \<open>i\<close> down to 1:
  \<^verbatim>\<open>j = randomValues(1)[0] % (i + 1); [a[i], a[j]] = [a[j], a[i]]\<close>.
\<close>

fun shuffle_from :: "('s \<Rightarrow> 8 word \<times> 's) \<Rightarrow> nat \<Rightarrow> 'a list \<Rightarrow> 's \<Rightarrow> 'a list \<times> 's" where
  "shuffle_from draw 0 passwordArray st = (passwordArray, st)"
| "shuffle_from draw (Suc k) passwordArray st =
     (let i = Suc k;
          (b, st') = draw st;
          j = unat b mod (i + 1)
      in shuffle_from draw k
           (passwordArray[i := passwordArray ! j, j := passwordArray ! i]) st')"

definition and_then ::
  "(error \<times> 's) + 'a \<Rightarrow> ('a \<Rightarrow> (error \<times> 's) + 'b) \<Rightarrow> (error \<times> 's) + 'b" where
  "and_then r f = (case r of Inl e \<Rightarrow> Inl e | Inr x \<Rightarrow> f x)"

definition generatePasswordBody ::
  "('s \<Rightarrow> 8 word \<times> 's) \<Rightarrow> 's \<Rightarrow> GenerateParams \<Rightarrow> (error \<times> 's) + (string \<times> 's)" where
  "generatePasswordBody draw st0 p =
     (let ac = availableCharsets p in
      if length (map fst ac) = 0 then Inl (NoClassSelected, st0)
      else
        let totalMin = minUpper p + minLower p + minNumbers p + minSymbols p in
        if totalMin > length_p p then Inl (MinimumsExceedLength, st0)
        else if minUpper p > 0 \<and> \<not> includeUpper p then Inl (UpperNotIncluded, st0)
        else if minLower p > 0 \<and> \<not> includeLower p then Inl (LowerNotIncluded, st0)
        else if minNumbers p > 0 \<and> \<not> includeNumbers p then Inl (NumbersNotIncluded, st0)
        else if minSymbols p > 0 \<and> \<not> includeSymbols p then Inl (SymbolsNotIncluded, st0)
        else
          let remainingLength = length_p p - totalMin;
              allAvailableChars = concat (map snd ac)
          in
          and_then (draw_chars draw (map_of ac ''uppercase'') (nat (minUpper p)) [] st0)
            (\<lambda>(pw1, st1).
          and_then (draw_chars draw (map_of ac ''lowercase'') (nat (minLower p)) pw1 st1)
            (\<lambda>(pw2, st2).
          and_then (draw_chars draw (map_of ac ''numbers'') (nat (minNumbers p)) pw2 st2)
            (\<lambda>(pw3, st3).
          and_then (draw_chars draw (map_of ac ''symbols'') (nat (minSymbols p)) pw3 st3)
            (\<lambda>(pw4, st4).
          and_then (draw_chars draw (Some allAvailableChars) (nat remainingLength) pw4 st4)
            (\<lambda>(password, st5).
          Inr (shuffle_from draw (length password - 1) password st5)))))))"

subsection \<open>The two functions\<close>

text \<open>
  The library's function, first with the generator it leaves behind (on a failure too),
  so that the number of bytes drawn can be read off, then as exported.
\<close>

definition generatePasswordFromSeed_run ::
  "string \<Rightarrow> GenerateParams \<Rightarrow> (error \<times> generator) + (string \<times> generator)" where
  "generatePasswordFromSeed_run seed p =
     generatePasswordBody draw_lib (createRandomGenerator seed) p"

definition generatePasswordFromSeed :: "string \<Rightarrow> GenerateParams \<Rightarrow> error + string" where
  "generatePasswordFromSeed seed p = map_sum fst fst (generatePasswordFromSeed_run seed p)"

text \<open>The route's private function.\<close>

definition generatePasswordFromSeed_route :: "string \<Rightarrow> GenerateParams \<Rightarrow> error + string" where
  "generatePasswordFromSeed_route seed p =
     map_sum fst fst (generatePasswordBody draw_route (hex_decode seed) p)"

subsection \<open>Vocabulary of the properties\<close>

text \<open>
  A valid constraint specification, in the words of the properties: all minimums are
  non-negative, their sum is at most the length, at least one class is enabled, and every
  class with a positive minimum is enabled.
\<close>

definition valid_params :: "GenerateParams \<Rightarrow> bool" where
  "valid_params p \<longleftrightarrow>
     0 \<le> minUpper p \<and> 0 \<le> minLower p \<and> 0 \<le> minNumbers p \<and> 0 \<le> minSymbols p \<and>
     minUpper p + minLower p + minNumbers p + minSymbols p \<le> length_p p \<and>
     (includeUpper p \<or> includeLower p \<or> includeNumbers p \<or> includeSymbols p) \<and>
     (0 < minUpper p \<longrightarrow> includeUpper p) \<and>
     (0 < minLower p \<longrightarrow> includeLower p) \<and>
     (0 < minNumbers p \<longrightarrow> includeNumbers p) \<and>
     (0 < minSymbols p \<longrightarrow> includeSymbols p)"

text \<open>How many characters of a password belong to an alphabet.\<close>

definition count_in :: "string \<Rightarrow> string \<Rightarrow> nat" where
  "count_in alphabet pw = length (filter (\<lambda>c. c \<in> set alphabet) pw)"

text \<open>
  A sequence of calls of the library's generator, with the sizes \<open>ns\<close>: all bytes emitted,
  in order, and the generator after the last call.
\<close>

fun draws :: "generator \<Rightarrow> nat list \<Rightarrow> 8 word list \<times> generator" where
  "draws g [] = ([], g)"
| "draws g (n # ns) =
     (let (bs, g1) = randomValues g n;
          (rest, g2) = draws g1 ns
      in (bs @ rest, g2))"

text \<open>
  The specification of the documented scenario (length 8, two uppercase characters at
  least, all four classes enabled) and its seed of 32 zero bytes, as a hex string.
\<close>

definition example_params :: GenerateParams where
  "example_params = \<lparr>length_p = 8, minUpper = 2, minLower = 0, minNumbers = 0, minSymbols = 0,
     includeUpper = True, includeLower = True, includeNumbers = True, includeSymbols = True\<rparr>"

definition zero_seed :: string where
  "zero_seed = ''0000000000000000000000000000000000000000000000000000000000000000''"

section \<open>Basic facts\<close>

lemma draw_lib_eq:
  "draw_lib g = (seed_byte (seedBytes g) (position g), g\<lparr>position := Suc (position g)\<rparr>)"
  by (simp add: draw_lib_def)

lemma draw_route_eq: "draw_route sb = (seed_byte sb 0, sb)"
  by (simp add: draw_route_def randomValues_route_def)

lemma and_then_Inr [simp]: "and_then (Inr x) f = f x"
  by (simp add: and_then_def)

lemma and_then_Inl [simp]: "and_then (Inl e) f = Inl e"
  by (simp add: and_then_def)

subsection \<open>The drawing loop\<close>

lemma draw_chars_None:
  "draw_chars draw None n pw st =
     (if n = 0 then Inr (pw, st) else Inl (TypeError, snd (draw st)))"
  by (cases n) (simp_all split: prod.splits)

lemma draw_chars_Suc:
  "draw st = (b, st1) \<Longrightarrow>
   draw_chars draw (Some a) (Suc n) pw st =
     draw_chars draw (Some a) n (pw @ [a ! (unat b mod length a)]) st1"
  by simp

lemma draw_chars_Some:
  "\<exists>cs st'. draw_chars draw (Some a) n pw st = Inr (pw @ cs, st') \<and> length cs = n \<and>
     (a \<noteq> [] \<longrightarrow> set cs \<subseteq> set a)"
proof (induction n arbitrary: pw st)
  case 0
  show ?case by simp
next
  case (Suc n)
  obtain b st1 where d: "draw st = (b, st1)" by (cases "draw st")
  let ?c = "a ! (unat b mod length a)"
  from Suc.IH [of "pw @ [?c]" st1]
  obtain cs st' where
    r: "draw_chars draw (Some a) n (pw @ [?c]) st1 = Inr ((pw @ [?c]) @ cs, st')"
    and l: "length cs = n" and m: "a \<noteq> [] \<longrightarrow> set cs \<subseteq> set a"
    by blast
  have "draw_chars draw (Some a) (Suc n) pw st = Inr (pw @ (?c # cs), st')"
    using draw_chars_Suc [of draw st b st1, OF d] r by simp
  moreover have "length (?c # cs) = Suc n" using l by simp
  moreover have "a \<noteq> [] \<longrightarrow> set (?c # cs) \<subseteq> set a"
    using m by simp
  ultimately show ?case by blast
qed

lemma draw_chars_count:
  assumes "\<And>s. cnt (snd (draw s)) = Suc (cnt s)"
    and "draw_chars draw cs n pw st = Inr (pw', st')"
  shows "cnt st' = cnt st + n"
  using assms(2)
proof (induction n arbitrary: pw st)
  case 0
  then show ?case by simp
next
  case (Suc n)
  obtain b st1 where d: "draw st = (b, st1)" by (cases "draw st")
  have c1: "cnt st1 = Suc (cnt st)" using assms(1) [of st] d by simp
  from Suc.prems d obtain a where a: "cs = Some a"
    and r: "draw_chars draw cs n (pw @ [a ! (unat b mod length a)]) st1 = Inr (pw', st')"
    by (cases cs) auto
  from Suc.IH [OF r] c1 show ?case by simp
qed

text \<open>A class loop: the class is present whenever the loop runs at all.\<close>

lemma draw_chars_class:
  assumes "0 < n \<longrightarrow> cs = Some a"
  shows "\<exists>xs st'. draw_chars draw cs n pw st = Inr (pw @ xs, st') \<and> length xs = n \<and>
     (a \<noteq> [] \<longrightarrow> set xs \<subseteq> set a)"
proof (cases n)
  case 0
  then show ?thesis by simp
next
  case (Suc m)
  with assms have "cs = Some a" by simp
  then show ?thesis using draw_chars_Some [of draw a n pw st] by simp
qed

subsection \<open>The shuffle\<close>

lemma shuffle_from_Suc:
  "draw st = (b, st1) \<Longrightarrow>
   shuffle_from draw (Suc k) arr st =
     shuffle_from draw k
       (arr[Suc k := arr ! (unat b mod Suc (Suc k)), unat b mod Suc (Suc k) := arr ! Suc k]) st1"
  by (simp add: Let_def)

lemma shuffle_from_length: "length (fst (shuffle_from draw k arr st)) = length arr"
proof (induction k arbitrary: arr st)
  case 0
  show ?case by simp
next
  case (Suc k)
  obtain b st1 where d: "draw st = (b, st1)" by (cases "draw st")
  show ?case by (simp only: shuffle_from_Suc [of draw st b st1, OF d] Suc.IH length_list_update)
qed

lemma shuffle_from_mset:
  "k < length arr \<Longrightarrow> mset (fst (shuffle_from draw k arr st)) = mset arr"
proof (induction k arbitrary: arr st)
  case 0
  show ?case by simp
next
  case (Suc k)
  obtain b st1 where d: "draw st = (b, st1)" by (cases "draw st")
  let ?j = "unat b mod Suc (Suc k)"
  have j: "?j < length arr"
  proof -
    have "?j < Suc (Suc k)" by (rule mod_less_divisor) simp
    then show ?thesis using Suc.prems by linarith
  qed
  have sw: "mset (arr[Suc k := arr ! ?j, ?j := arr ! Suc k]) = mset arr"
    using Suc.prems j by (simp add: mset_swap)
  have "k < length (arr[Suc k := arr ! ?j, ?j := arr ! Suc k])" using Suc.prems by simp
  from Suc.IH [OF this, of st1] sw show ?case
    by (simp only: shuffle_from_Suc [of draw st b st1, OF d])
qed

lemma shuffle_from_count:
  assumes "\<And>s. cnt (snd (draw s)) = Suc (cnt s)"
  shows "cnt (snd (shuffle_from draw k arr st)) = cnt st + k"
proof (induction k arbitrary: arr st)
  case 0
  show ?case by simp
next
  case (Suc k)
  obtain b st1 where d: "draw st = (b, st1)" by (cases "draw st")
  have c1: "cnt st1 = Suc (cnt st)" using assms [of st] d by simp
  show ?case unfolding shuffle_from_Suc [of draw st b st1, OF d]
    using Suc.IH [of _ st1] c1 by simp
qed

lemma shuffle_from_mset_any:
  "mset (fst (shuffle_from draw (length arr - 1) arr st)) = mset arr"
proof (cases arr)
  case Nil
  then show ?thesis by simp
next
  case (Cons x xs)
  then have "length arr - 1 < length arr" by simp
  then show ?thesis by (rule shuffle_from_mset)
qed

lemma count_in_mset: "mset pw = mset pw' \<Longrightarrow> count_in a pw = count_in a pw'"
proof -
  assume "mset pw = mset pw'"
  then have "mset (filter (\<lambda>c. c \<in> set a) pw) = mset (filter (\<lambda>c. c \<in> set a) pw')"
    by (simp only: mset_filter)
  then have "length (filter (\<lambda>c. c \<in> set a) pw) = length (filter (\<lambda>c. c \<in> set a) pw')"
    by (rule mset_eq_length)
  then show ?thesis by (simp add: count_in_def)
qed

lemma count_in_append: "count_in a (xs @ ys) = count_in a xs + count_in a ys"
  by (simp add: count_in_def)

lemma count_in_all: "set xs \<subseteq> set a \<Longrightarrow> count_in a xs = length xs"
  by (simp add: count_in_def subset_iff)

subsection \<open>The available alphabets\<close>

lemma map_of_uppercase:
  "map_of (availableCharsets p) ''uppercase'' =
     (if includeUpper p then Some CHARSETS_uppercase else None)"
  by (simp add: availableCharsets_def)

lemma map_of_lowercase:
  "map_of (availableCharsets p) ''lowercase'' =
     (if includeLower p then Some CHARSETS_lowercase else None)"
  by (simp add: availableCharsets_def)

lemma map_of_numbers:
  "map_of (availableCharsets p) ''numbers'' =
     (if includeNumbers p then Some CHARSETS_numbers else None)"
  by (simp add: availableCharsets_def)

lemma map_of_symbols:
  "map_of (availableCharsets p) ''symbols'' =
     (if includeSymbols p then Some CHARSETS_symbols else None)"
  by (simp add: availableCharsets_def)

lemma no_keys_iff:
  "length (map fst (availableCharsets p)) = 0 \<longleftrightarrow>
     \<not> includeUpper p \<and> \<not> includeLower p \<and> \<not> includeNumbers p \<and> \<not> includeSymbols p"
  by (simp add: availableCharsets_def)

lemma CHARSETS_nonempty:
  "CHARSETS_uppercase \<noteq> []" "CHARSETS_lowercase \<noteq> []"
  "CHARSETS_numbers \<noteq> []" "CHARSETS_symbols \<noteq> []"
  by (simp_all add: CHARSETS_uppercase_def CHARSETS_lowercase_def CHARSETS_numbers_def
      CHARSETS_symbols_def)

subsection \<open>A call on a valid specification\<close>

text \<open>
  On a valid specification the body passes validation, the five loops append
  \<open>nat (length_p p)\<close> characters in all, of which the first \<open>nat (minUpper p)\<close> are
  uppercase characters and so on, and the shuffle runs on that buffer. \<open>cnt\<close> is any
  counter of draws that the byte source advances by one.
\<close>

lemma nat_parts:
  fixes a b c d l :: int
  assumes "0 \<le> a" "0 \<le> b" "0 \<le> c" "0 \<le> d" "a + b + c + d \<le> l"
  shows "nat a + nat b + nat c + nat d + nat (l - (a + b + c + d)) = nat l"
  using assms by arith

lemma body_valid:
  assumes v: "valid_params p"
  shows "\<exists>pw0 st5.
     generatePasswordBody draw st0 p = Inr (shuffle_from draw (length pw0 - 1) pw0 st5) \<and>
     length pw0 = nat (length_p p) \<and>
     nat (minUpper p) \<le> count_in CHARSETS_uppercase pw0 \<and>
     nat (minLower p) \<le> count_in CHARSETS_lowercase pw0 \<and>
     nat (minNumbers p) \<le> count_in CHARSETS_numbers pw0 \<and>
     nat (minSymbols p) \<le> count_in CHARSETS_symbols pw0 \<and>
     ((\<forall>s. cnt (snd (draw s)) = Suc (cnt s)) \<longrightarrow> cnt st5 = cnt st0 + nat (length_p p))"
proof -
  let ?ac = "availableCharsets p"
  let ?tot = "minUpper p + minLower p + minNumbers p + minSymbols p"
  have nn: "0 \<le> minUpper p" "0 \<le> minLower p" "0 \<le> minNumbers p" "0 \<le> minSymbols p"
    and le: "?tot \<le> length_p p"
    and some: "includeUpper p \<or> includeLower p \<or> includeNumbers p \<or> includeSymbols p"
    and iu: "0 < minUpper p \<longrightarrow> includeUpper p"
    and il: "0 < minLower p \<longrightarrow> includeLower p"
    and inn: "0 < minNumbers p \<longrightarrow> includeNumbers p"
    and isy: "0 < minSymbols p \<longrightarrow> includeSymbols p"
    using v by (simp_all add: valid_params_def)
  have c1: "0 < nat (minUpper p) \<longrightarrow> map_of ?ac ''uppercase'' = Some CHARSETS_uppercase"
    using iu by (simp add: map_of_uppercase)
  have c2: "0 < nat (minLower p) \<longrightarrow> map_of ?ac ''lowercase'' = Some CHARSETS_lowercase"
    using il by (simp add: map_of_lowercase)
  have c3: "0 < nat (minNumbers p) \<longrightarrow> map_of ?ac ''numbers'' = Some CHARSETS_numbers"
    using inn by (simp add: map_of_numbers)
  have c4: "0 < nat (minSymbols p) \<longrightarrow> map_of ?ac ''symbols'' = Some CHARSETS_symbols"
    using isy by (simp add: map_of_symbols)
  from draw_chars_class [OF c1, of draw "[]" st0] CHARSETS_nonempty(1)
  obtain us st1 where
    r1: "draw_chars draw (map_of ?ac ''uppercase'') (nat (minUpper p)) [] st0 = Inr (us, st1)"
    and l1: "length us = nat (minUpper p)" and s1: "set us \<subseteq> set CHARSETS_uppercase"
    by auto
  from draw_chars_class [OF c2, of draw us st1] CHARSETS_nonempty(2)
  obtain ls st2 where
    r2: "draw_chars draw (map_of ?ac ''lowercase'') (nat (minLower p)) us st1 = Inr (us @ ls, st2)"
    and l2: "length ls = nat (minLower p)" and s2: "set ls \<subseteq> set CHARSETS_lowercase"
    by auto
  from draw_chars_class [OF c3, of draw "us @ ls" st2] CHARSETS_nonempty(3)
  obtain ns st3 where
    r3: "draw_chars draw (map_of ?ac ''numbers'') (nat (minNumbers p)) (us @ ls) st2 =
           Inr ((us @ ls) @ ns, st3)"
    and l3: "length ns = nat (minNumbers p)" and s3: "set ns \<subseteq> set CHARSETS_numbers"
    by auto
  from draw_chars_class [OF c4, of draw "(us @ ls) @ ns" st3] CHARSETS_nonempty(4)
  obtain ss st4 where
    r4: "draw_chars draw (map_of ?ac ''symbols'') (nat (minSymbols p)) ((us @ ls) @ ns) st3 =
           Inr (((us @ ls) @ ns) @ ss, st4)"
    and l4: "length ss = nat (minSymbols p)" and s4: "set ss \<subseteq> set CHARSETS_symbols"
    by auto
  from draw_chars_Some [of draw "concat (map snd ?ac)" "nat (length_p p - ?tot)"
      "((us @ ls) @ ns) @ ss" st4]
  obtain fill st5 where
    r5: "draw_chars draw (Some (concat (map snd ?ac))) (nat (length_p p - ?tot))
           (((us @ ls) @ ns) @ ss) st4 = Inr ((((us @ ls) @ ns) @ ss) @ fill, st5)"
    and l5: "length fill = nat (length_p p - ?tot)"
    by auto
  let ?pw0 = "(((us @ ls) @ ns) @ ss) @ fill"
  have nk: "length (map fst ?ac) \<noteq> 0" using some no_keys_iff [of p] by blast
  have body: "generatePasswordBody draw st0 p =
      Inr (shuffle_from draw (length ?pw0 - 1) ?pw0 st5)"
    unfolding generatePasswordBody_def Let_def
    using nk le iu il inn isy by (simp only: r1 r2 r3 r4 r5 and_then_Inr case_prod_conv if_False) auto
  have len: "length ?pw0 = nat (length_p p)"
    using l1 l2 l3 l4 l5 nat_parts [OF nn le] by simp
  have k1: "nat (minUpper p) \<le> count_in CHARSETS_uppercase ?pw0"
    using count_in_all [OF s1] l1 by (simp add: count_in_append)
  have k2: "nat (minLower p) \<le> count_in CHARSETS_lowercase ?pw0"
    using count_in_all [OF s2] l2 by (simp add: count_in_append)
  have k3: "nat (minNumbers p) \<le> count_in CHARSETS_numbers ?pw0"
    using count_in_all [OF s3] l3 by (simp add: count_in_append)
  have k4: "nat (minSymbols p) \<le> count_in CHARSETS_symbols ?pw0"
    using count_in_all [OF s4] l4 by (simp add: count_in_append)
  have cn: "(\<forall>s. cnt (snd (draw s)) = Suc (cnt s)) \<longrightarrow> cnt st5 = cnt st0 + nat (length_p p)"
  proof
    assume a: "\<forall>s. cnt (snd (draw s)) = Suc (cnt s)"
    then have a': "\<And>s. cnt (snd (draw s)) = Suc (cnt s)" by simp
    have "cnt st1 = cnt st0 + nat (minUpper p)" by (rule draw_chars_count [of cnt draw, OF a' r1])
    moreover have "cnt st2 = cnt st1 + nat (minLower p)" by (rule draw_chars_count [of cnt draw, OF a' r2])
    moreover have "cnt st3 = cnt st2 + nat (minNumbers p)" by (rule draw_chars_count [of cnt draw, OF a' r3])
    moreover have "cnt st4 = cnt st3 + nat (minSymbols p)" by (rule draw_chars_count [of cnt draw, OF a' r4])
    moreover have "cnt st5 = cnt st4 + nat (length_p p - ?tot)" by (rule draw_chars_count [of cnt draw, OF a' r5])
    ultimately show "cnt st5 = cnt st0 + nat (length_p p)" using nat_parts [OF nn le] by simp
  qed
  from body len k1 k2 k3 k4 cn show ?thesis by blast
qed


section \<open>Evaluating a call\<close>

text \<open>
  The body assembled from the results of its loops, and the loops unrolled on numerals, so
  that a call on a concrete seed is computed step by step.
\<close>

lemma body_stages:
  assumes "includeUpper p \<or> includeLower p \<or> includeNumbers p \<or> includeSymbols p"
    and "minUpper p + minLower p + minNumbers p + minSymbols p \<le> length_p p"
    and "0 < minUpper p \<longrightarrow> includeUpper p" and "0 < minLower p \<longrightarrow> includeLower p"
    and "0 < minNumbers p \<longrightarrow> includeNumbers p" and "0 < minSymbols p \<longrightarrow> includeSymbols p"
    and "draw_chars draw (map_of (availableCharsets p) ''uppercase'') (nat (minUpper p)) [] st0 =
           Inr (pw1, st1)"
    and "draw_chars draw (map_of (availableCharsets p) ''lowercase'') (nat (minLower p)) pw1 st1 =
           Inr (pw2, st2)"
    and "draw_chars draw (map_of (availableCharsets p) ''numbers'') (nat (minNumbers p)) pw2 st2 =
           Inr (pw3, st3)"
    and "draw_chars draw (map_of (availableCharsets p) ''symbols'') (nat (minSymbols p)) pw3 st3 =
           Inr (pw4, st4)"
    and "draw_chars draw (Some (concat (map snd (availableCharsets p))))
           (nat (length_p p - (minUpper p + minLower p + minNumbers p + minSymbols p))) pw4 st4 =
           Inr (pw5, st5)"
  shows "generatePasswordBody draw st0 p = Inr (shuffle_from draw (length pw5 - 1) pw5 st5)"
proof -
  have nk: "length (map fst (availableCharsets p)) \<noteq> 0"
    using assms(1) no_keys_iff [of p] by blast
  show ?thesis
    unfolding generatePasswordBody_def Let_def
    using nk assms(2-6)
    by (simp only: assms(7-11) and_then_Inr case_prod_conv if_False) auto
qed

lemma example_valid: "valid_params example_params"
  by (simp add: valid_params_def example_params_def)

lemma example_pool:
  "concat (map snd (availableCharsets example_params)) =
     ''ABCDEFGHIJKLMNPQRSTUVWXYZabcdefghijklmnopqrstuvwxyz23456789!@#$%^&*+-=''"
  by (simp add: availableCharsets_def example_params_def CHARSETS_uppercase_def
      CHARSETS_lowercase_def CHARSETS_numbers_def CHARSETS_symbols_def)

lemma example_body:
  assumes "draw_chars draw (Some CHARSETS_uppercase) 2 [] st0 = Inr (pw1, st1)"
    and "draw_chars draw
           (Some ''ABCDEFGHIJKLMNPQRSTUVWXYZabcdefghijklmnopqrstuvwxyz23456789!@#$%^&*+-='')
           6 pw1 st1 = Inr (pw5, st5)"
    and "length pw5 = Suc k"
  shows "generatePasswordBody draw st0 example_params = Inr (shuffle_from draw k pw5 st5)"
proof -
  have k: "k = length pw5 - 1" using assms(3) by simp
  show ?thesis unfolding k
  proof (rule body_stages [where ?pw1.0 = pw1 and ?st1.0 = st1 and ?pw2.0 = pw1 and ?st2.0 = st1
      and ?pw3.0 = pw1 and ?st3.0 = st1 and ?pw4.0 = pw1 and ?st4.0 = st1])
  show "draw_chars draw (map_of (availableCharsets example_params) ''uppercase'')
          (nat (minUpper example_params)) [] st0 = Inr (pw1, st1)"
    using assms(1) by (simp add: map_of_uppercase example_params_def)
  show "draw_chars draw (Some (concat (map snd (availableCharsets example_params))))
          (nat (length_p example_params - (minUpper example_params + minLower example_params +
             minNumbers example_params + minSymbols example_params))) pw1 st1 = Inr (pw5, st5)"
      using assms(2) by (simp add: example_pool) (simp add: example_params_def)
  qed (simp_all add: example_params_def)
qed

lemma draw_chars_numeral:
  "draw_chars draw (Some a) (numeral k) pw st =
     draw_chars draw (Some a) (pred_numeral k)
       (pw @ [a ! (unat (fst (draw st)) mod length a)]) (snd (draw st))"
  by (simp add: numeral_eq_Suc split: prod.splits)

lemma draw_chars_Suc0:
  "draw_chars draw (Some a) (Suc 0) pw st =
     Inr (pw @ [a ! (unat (fst (draw st)) mod length a)], snd (draw st))"
  by (simp split: prod.splits)

lemma shuffle_from_numeral:
  "shuffle_from draw (numeral k) arr st =
     shuffle_from draw (pred_numeral k)
       (arr[numeral k := arr ! (unat (fst (draw st)) mod Suc (numeral k)),
            unat (fst (draw st)) mod Suc (numeral k) := arr ! numeral k])
       (snd (draw st))"
  by (simp add: numeral_eq_Suc Let_def split: prod.splits)

lemma shuffle_from_Suc0:
  "shuffle_from draw (Suc 0) arr st =
     (arr[Suc 0 := arr ! (unat (fst (draw st)) mod 2),
          unat (fst (draw st)) mod 2 := arr ! Suc 0], snd (draw st))"
  by (simp add: Let_def numeral_2_eq_2 split: prod.splits)

lemma draw_lib_rec:
  "draw_lib \<lparr>seedBytes = bs, position = q\<rparr> = (seed_byte bs q, \<lparr>seedBytes = bs, position = Suc q\<rparr>)"
  by (simp add: draw_lib_eq)


lemma list_update_Cons_numeral:
  "(x # xs)[numeral v := y] = x # xs[numeral v - 1 := y]"
  by (simp add: numeral_eq_Suc)

lemma seed_byte_eval: "length bs = n \<Longrightarrow> n \<noteq> 0 \<Longrightarrow> seed_byte bs q = bs ! (q mod n)"
  by (auto simp: seed_byte_def)


lemma hex_0001: "hex_decode ''0001'' = [0, 1]"
  by (simp add: unhex_def)

lemma seed_byte_01: "seed_byte [0, 1] q = [0, 1] ! (q mod 2)"
  by (rule seed_byte_eval) simp_all

lemma lib_run_0001:
  "generatePasswordFromSeed_run ''0001'' example_params =
     Inr (''ABABABBA'', \<lparr>seedBytes = [0, 1], position = 15\<rparr>)"
proof -
  let ?g = "\<lambda>q. \<lparr>seedBytes = [0, 1], position = q\<rparr>"
  have a: "draw_chars draw_lib (Some CHARSETS_uppercase) 2 [] (?g 0) = Inr (''AB'', ?g 2)"
    by (simp del: draw_chars.simps add: draw_chars_numeral draw_chars_Suc0 draw_lib_rec seed_byte_01
        CHARSETS_uppercase_def)
  have b: "draw_chars draw_lib
      (Some ''ABCDEFGHIJKLMNPQRSTUVWXYZabcdefghijklmnopqrstuvwxyz23456789!@#$%^&*+-='')
      6 ''AB'' (?g 2) = Inr (''ABABABAB'', ?g 8)"
    by (simp del: draw_chars.simps add: draw_chars_numeral draw_chars_Suc0 draw_lib_rec seed_byte_01)
  have c: "shuffle_from draw_lib 7 ''ABABABAB'' (?g 8) = (''ABABABBA'', ?g 15)"
    by (simp del: shuffle_from.simps add: shuffle_from_numeral shuffle_from_Suc0 draw_lib_rec seed_byte_01
        list_update_Cons_numeral)
  have "generatePasswordBody draw_lib (?g 0) example_params =
          Inr (shuffle_from draw_lib 7 ''ABABABAB'' (?g 8))"
    by (rule example_body [OF a b]) simp
  then show ?thesis
    by (simp only: generatePasswordFromSeed_run_def createRandomGenerator_def hex_0001 c)
qed

lemma position_draw_lib: "position (snd (draw_lib g)) = Suc (position g)"
  by (simp add: draw_lib_eq)

lemma hex_zero_seed:
  "hex_decode zero_seed =
     [0,0,0,0,0,0,0,0,0,0,0,0,0,0,0,0,0,0,0,0,0,0,0,0,0,0,0,0,0,0,0,0]"
  by (simp add: zero_seed_def unhex_def)

lemma zero_seed_nonempty: "hex_decode zero_seed \<noteq> []"
  by (simp add: hex_zero_seed)

subsection \<open>The library's generator\<close>

lemma randomValues_Suc:
  "randomValues g (Suc n) =
     (seed_byte (seedBytes g) (position g) #
        fst (randomValues (g\<lparr>position := Suc (position g)\<rparr>) n),
      snd (randomValues (g\<lparr>position := Suc (position g)\<rparr>) n))"
  by (simp add: Let_def case_prod_beta)

lemma randomValues_length: "length (fst (randomValues g n)) = n"
  by (induction n arbitrary: g) (simp_all add: randomValues_Suc del: randomValues.simps(2))

lemma randomValues_state: "snd (randomValues g n) = g\<lparr>position := position g + n\<rparr>"
  by (induction n arbitrary: g) (simp_all add: randomValues_Suc del: randomValues.simps(2))

lemma randomValues_nth:
  "k < n \<Longrightarrow> fst (randomValues g n) ! k = seed_byte (seedBytes g) (position g + k)"
proof (induction n arbitrary: g k)
  case 0
  then show ?case by simp
next
  case (Suc n)
  show ?case
  proof (cases k)
    case 0
    then show ?thesis by (simp add: randomValues_Suc del: randomValues.simps(2))
  next
    case (Suc j)
    with Suc.prems have "j < n" by simp
    from Suc.IH [OF this, of "g\<lparr>position := Suc (position g)\<rparr>"] Suc
    show ?thesis by (simp add: randomValues_Suc del: randomValues.simps(2))
  qed
qed

lemma draws_spec:
  "draws g ns = (out, g') \<Longrightarrow>
     g' = g\<lparr>position := position g + sum_list ns\<rparr> \<and> length out = sum_list ns \<and>
     (\<forall>k < sum_list ns. out ! k = seed_byte (seedBytes g) (position g + k))"
proof (induction ns arbitrary: g out g')
  case Nil
  then show ?case by simp
next
  case (Cons n ns)
  obtain bs g1 where r: "randomValues g n = (bs, g1)" by (cases "randomValues g n")
  obtain rest g2 where d: "draws g1 ns = (rest, g2)" by (cases "draws g1 ns")
  have g1: "g1 = g\<lparr>position := position g + n\<rparr>"
    using randomValues_state [of g n] r by simp
  have lb: "length bs = n" using randomValues_length [of g n] r by simp
  have nb: "\<And>k. k < n \<Longrightarrow> bs ! k = seed_byte (seedBytes g) (position g + k)"
    using randomValues_nth [of _ n g] r by simp
  from Cons.IH [OF d] have
    g2: "g2 = g1\<lparr>position := position g1 + sum_list ns\<rparr>"
    and lr: "length rest = sum_list ns"
    and nr: "\<And>k. k < sum_list ns \<Longrightarrow> rest ! k = seed_byte (seedBytes g1) (position g1 + k)"
    by simp_all
  have o: "out = bs @ rest" and g': "g' = g2" using Cons.prems r d by simp_all
  have "\<forall>k < sum_list (n # ns). out ! k = seed_byte (seedBytes g) (position g + k)"
  proof (intro allI impI)
    fix k assume k: "k < sum_list (n # ns)"
    show "out ! k = seed_byte (seedBytes g) (position g + k)"
    proof (cases "k < n")
      case True
      then show ?thesis using o lb nb by (simp add: nth_append)
    next
      case False
      then have "k - n < sum_list ns" using k by simp
      from nr [OF this] False show ?thesis using o lb g1 by (simp add: nth_append)
    qed
  qed
  then show ?case using o g' g2 g1 lb lr by simp
qed

lemma draws_0001:
  "draws (createRandomGenerator ''0001'') [1, 2] =
     ([0, 1, 0], \<lparr>seedBytes = [0, 1], position = 3\<rparr>)"
  by (simp add: createRandomGenerator_def hex_0001 seed_byte_def numeral_2_eq_2
      del: hex_decode.simps)

subsection \<open>Validation\<close>

lemma body_no_class:
  "\<not> includeUpper p \<Longrightarrow> \<not> includeLower p \<Longrightarrow> \<not> includeNumbers p \<Longrightarrow> \<not> includeSymbols p \<Longrightarrow>
   generatePasswordBody draw st p = Inl (NoClassSelected, st)"
  by (simp add: generatePasswordBody_def availableCharsets_def)

lemma body_exceed:
  assumes "includeUpper p \<or> includeLower p \<or> includeNumbers p \<or> includeSymbols p"
    and "length_p p < minUpper p + minLower p + minNumbers p + minSymbols p"
  shows "generatePasswordBody draw st p = Inl (MinimumsExceedLength, st)"
proof -
  have "length (map fst (availableCharsets p)) \<noteq> 0"
    using assms(1) no_keys_iff [of p] by blast
  then show ?thesis using assms(2) by (simp add: generatePasswordBody_def Let_def)
qed

lemma body_min_without_class:
  assumes "includeUpper p \<or> includeLower p \<or> includeNumbers p \<or> includeSymbols p"
    and "minUpper p + minLower p + minNumbers p + minSymbols p \<le> length_p p"
    and "(0 < minUpper p \<and> \<not> includeUpper p) \<or> (0 < minLower p \<and> \<not> includeLower p) \<or>
         (0 < minNumbers p \<and> \<not> includeNumbers p) \<or> (0 < minSymbols p \<and> \<not> includeSymbols p)"
  shows "generatePasswordBody draw st p =
     Inl (if 0 < minUpper p \<and> \<not> includeUpper p then UpperNotIncluded
          else if 0 < minLower p \<and> \<not> includeLower p then LowerNotIncluded
          else if 0 < minNumbers p \<and> \<not> includeNumbers p then NumbersNotIncluded
          else SymbolsNotIncluded, st)"
proof -
  have "length (map fst (availableCharsets p)) \<noteq> 0"
    using assms(1) no_keys_iff [of p] by blast
  then show ?thesis using assms(2,3) by (auto simp add: generatePasswordBody_def Let_def)
qed

subsection \<open>Two byte sources that give the same bytes\<close>

lemma and_then_sim:
  assumes "rel_sum E (\<lambda>x y. fst x = fst y \<and> R (snd x) (snd y)) r1 r2"
    and "\<And>pw s t. R s t \<Longrightarrow> rel_sum E B (f (pw, s)) (g (pw, t))"
  shows "rel_sum E B (and_then r1 f) (and_then r2 g)"
proof (cases r1)
  case (Inl e)
  with assms(1) obtain e' where "r2 = Inl e'" "E e e'" by (cases r2) simp_all
  with Inl show ?thesis by simp
next
  case (Inr x)
  with assms(1) obtain y where y: "r2 = Inr y" "fst x = fst y" "R (snd x) (snd y)"
    by (cases r2) simp_all
  from assms(2) [OF y(3), of "fst x"] y(2) have "rel_sum E B (f x) (g y)"
    by (metis prod.collapse)
  with Inr y(1) show ?thesis by simp
qed

lemma sim_draw_chars:
  assumes step: "\<And>s t. R s t \<Longrightarrow> fst (d1 s) = fst (d2 t) \<and> R (snd (d1 s)) (snd (d2 t))"
    and "R s t"
  shows "rel_sum (\<lambda>x y. fst x = fst y) (\<lambda>x y. fst x = fst y \<and> R (snd x) (snd y))
           (draw_chars d1 cs n pw s) (draw_chars d2 cs n pw t)"
proof (cases cs)
  case None
  then show ?thesis using assms(2) by (simp add: draw_chars_None)
next
  case (Some a)
  have "rel_sum (\<lambda>x y. fst x = fst y) (\<lambda>x y. fst x = fst y \<and> R (snd x) (snd y))
           (draw_chars d1 (Some a) n pw s) (draw_chars d2 (Some a) n pw t)"
    using assms(2)
  proof (induction n arbitrary: pw s t)
    case 0
    then show ?case by simp
  next
    case (Suc n)
    obtain b s1 where d1: "d1 s = (b, s1)" by (cases "d1 s")
    obtain b' t1 where d2: "d2 t = (b', t1)" by (cases "d2 t")
    from step [OF Suc.prems] d1 d2 have bb: "b' = b" and r: "R s1 t1" by simp_all
    show ?case
      unfolding draw_chars_Suc [of d1 s b s1, OF d1] draw_chars_Suc [of d2 t b' t1, OF d2] bb
      by (rule Suc.IH [OF r])
  qed
  with Some show ?thesis by simp
qed

lemma sim_shuffle_from:
  assumes step: "\<And>s t. R s t \<Longrightarrow> fst (d1 s) = fst (d2 t) \<and> R (snd (d1 s)) (snd (d2 t))"
    and "R s t"
  shows "fst (shuffle_from d1 k arr s) = fst (shuffle_from d2 k arr t)"
  using assms(2)
proof (induction k arbitrary: arr s t)
  case 0
  show ?case by simp
next
  case (Suc k)
  obtain b s1 where d1: "d1 s = (b, s1)" by (cases "d1 s")
  obtain b' t1 where d2: "d2 t = (b', t1)" by (cases "d2 t")
  from step [OF Suc.prems] d1 d2 have bb: "b' = b" and r: "R s1 t1" by simp_all
  show ?case
    unfolding shuffle_from_Suc [of d1 s b s1, OF d1] shuffle_from_Suc [of d2 t b' t1, OF d2] bb
    by (rule Suc.IH [OF r])
qed

lemma body_ok:
  assumes "includeUpper p \<or> includeLower p \<or> includeNumbers p \<or> includeSymbols p"
    and "minUpper p + minLower p + minNumbers p + minSymbols p \<le> length_p p"
    and "\<not> ((0 < minUpper p \<and> \<not> includeUpper p) \<or> (0 < minLower p \<and> \<not> includeLower p) \<or>
         (0 < minNumbers p \<and> \<not> includeNumbers p) \<or> (0 < minSymbols p \<and> \<not> includeSymbols p))"
  shows "generatePasswordBody draw st0 p =
    and_then (draw_chars draw (map_of (availableCharsets p) ''uppercase'') (nat (minUpper p)) [] st0)
      (\<lambda>(pw1, st1).
    and_then (draw_chars draw (map_of (availableCharsets p) ''lowercase'') (nat (minLower p)) pw1 st1)
      (\<lambda>(pw2, st2).
    and_then (draw_chars draw (map_of (availableCharsets p) ''numbers'') (nat (minNumbers p)) pw2 st2)
      (\<lambda>(pw3, st3).
    and_then (draw_chars draw (map_of (availableCharsets p) ''symbols'') (nat (minSymbols p)) pw3 st3)
      (\<lambda>(pw4, st4).
    and_then (draw_chars draw (Some (concat (map snd (availableCharsets p))))
        (nat (length_p p - (minUpper p + minLower p + minNumbers p + minSymbols p))) pw4 st4)
      (\<lambda>(password, st5).
    Inr (shuffle_from draw (length password - 1) password st5))))))"
proof -
  have nk: "length (map fst (availableCharsets p)) \<noteq> 0"
    using assms(1) no_keys_iff [of p] by blast
  have le: "\<not> length_p p < minUpper p + minLower p + minNumbers p + minSymbols p"
    using assms(2) by simp
  have m: "\<not> (0 < minUpper p \<and> \<not> includeUpper p)" "\<not> (0 < minLower p \<and> \<not> includeLower p)"
    "\<not> (0 < minNumbers p \<and> \<not> includeNumbers p)" "\<not> (0 < minSymbols p \<and> \<not> includeSymbols p)"
    using assms(3) by blast+
  show ?thesis
    unfolding generatePasswordBody_def Let_def
    by (simp only: nk le m if_False)
qed

lemma sim_body:
  assumes step: "\<And>s t. R s t \<Longrightarrow> fst (d1 s) = fst (d2 t) \<and> R (snd (d1 s)) (snd (d2 t))"
    and r: "R s t"
  shows "map_sum fst fst (generatePasswordBody d1 s p) =
         map_sum fst fst (generatePasswordBody d2 t p)"
proof -
  let ?some = "includeUpper p \<or> includeLower p \<or> includeNumbers p \<or> includeSymbols p"
  let ?le = "minUpper p + minLower p + minNumbers p + minSymbols p \<le> length_p p"
  let ?mw = "(0 < minUpper p \<and> \<not> includeUpper p) \<or> (0 < minLower p \<and> \<not> includeLower p) \<or>
         (0 < minNumbers p \<and> \<not> includeNumbers p) \<or> (0 < minSymbols p \<and> \<not> includeSymbols p)"
  consider (none) "\<not> ?some" | (exceed) "?some" "\<not> ?le" | (without) "?some" "?le" "?mw"
    | (ok) "?some" "?le" "\<not> ?mw"
    by blast
  then show ?thesis
  proof cases
    case none
    then show ?thesis by (simp add: body_no_class)
  next
    case exceed
    then have "length_p p < minUpper p + minLower p + minNumbers p + minSymbols p" by simp
    then show ?thesis by (simp add: body_exceed [OF exceed(1)])
  next
    case without
    show ?thesis by (simp add: body_min_without_class [OF without])
  next
    case ok
    have dc: "rel_sum (\<lambda>x y. fst x = fst y) (\<lambda>x y. fst x = fst y \<and> R (snd x) (snd y))
           (draw_chars d1 cs n pw s') (draw_chars d2 cs n pw t')" if "R s' t'" for cs n pw s' t'
      using step that by (rule sim_draw_chars)
    have sh: "fst (shuffle_from d1 k arr s') = fst (shuffle_from d2 k arr t')"
      if "R s' t'" for k arr s' t'
      using step that by (rule sim_shuffle_from)
    have "rel_sum (\<lambda>x y. fst x = fst y) (\<lambda>x y. fst x = fst y)
            (generatePasswordBody d1 s p) (generatePasswordBody d2 t p)"
      unfolding body_ok [OF ok]
      apply (rule and_then_sim [where R = R], rule dc, rule r, simp only: case_prod_conv)
      apply (rule and_then_sim [where R = R], rule dc, assumption, simp only: case_prod_conv)
      apply (rule and_then_sim [where R = R], rule dc, assumption, simp only: case_prod_conv)
      apply (rule and_then_sim [where R = R], rule dc, assumption, simp only: case_prod_conv)
      apply (rule and_then_sim [where R = R], rule dc, assumption, simp only: case_prod_conv)
      apply (simp add: sh)
      done
    then show ?thesis
      by (cases "generatePasswordBody d1 s p"; cases "generatePasswordBody d2 t p") simp_all
  qed
qed

subsection \<open>Calls in which every drawn byte is 0\<close>

lemma lib_run_zero_bytes:
  assumes z: "\<And>q. seed_byte (hex_decode seed) q = 0"
  shows "generatePasswordFromSeed_run seed example_params =
     Inr (''AAAAAAAA'', \<lparr>seedBytes = hex_decode seed, position = 15\<rparr>)"
proof -
  let ?g = "\<lambda>q. \<lparr>seedBytes = hex_decode seed, position = q\<rparr>"
  have a: "draw_chars draw_lib (Some CHARSETS_uppercase) 2 [] (?g 0) = Inr (''AA'', ?g 2)"
    by (simp del: draw_chars.simps hex_decode.simps
        add: draw_chars_numeral draw_chars_Suc0 draw_lib_rec z CHARSETS_uppercase_def)
  have b: "draw_chars draw_lib
      (Some ''ABCDEFGHIJKLMNPQRSTUVWXYZabcdefghijklmnopqrstuvwxyz23456789!@#$%^&*+-='')
      6 ''AA'' (?g 2) = Inr (''AAAAAAAA'', ?g 8)"
    by (simp del: draw_chars.simps hex_decode.simps
        add: draw_chars_numeral draw_chars_Suc0 draw_lib_rec z)
  have c: "shuffle_from draw_lib 7 ''AAAAAAAA'' (?g 8) = (''AAAAAAAA'', ?g 15)"
    by (simp del: shuffle_from.simps hex_decode.simps
        add: shuffle_from_numeral shuffle_from_Suc0 draw_lib_rec z list_update_Cons_numeral)
  have "generatePasswordBody draw_lib (?g 0) example_params =
          Inr (shuffle_from draw_lib 7 ''AAAAAAAA'' (?g 8))"
    by (rule example_body [OF a b]) simp
  then show ?thesis
    by (simp only: generatePasswordFromSeed_run_def createRandomGenerator_def c)
qed

lemma route_first_zero:
  assumes z: "seed_byte (hex_decode seed) 0 = 0"
  shows "generatePasswordFromSeed_route seed example_params = Inr ''AAAAAAAA''"
proof -
  let ?sb = "hex_decode seed"
  have a: "draw_chars draw_route (Some CHARSETS_uppercase) 2 [] ?sb = Inr (''AA'', ?sb)"
    by (simp del: draw_chars.simps hex_decode.simps
        add: draw_chars_numeral draw_chars_Suc0 draw_route_eq z CHARSETS_uppercase_def)
  have b: "draw_chars draw_route
      (Some ''ABCDEFGHIJKLMNPQRSTUVWXYZabcdefghijklmnopqrstuvwxyz23456789!@#$%^&*+-='')
      6 ''AA'' ?sb = Inr (''AAAAAAAA'', ?sb)"
    by (simp del: draw_chars.simps hex_decode.simps
        add: draw_chars_numeral draw_chars_Suc0 draw_route_eq z)
  have c: "shuffle_from draw_route 7 ''AAAAAAAA'' ?sb = (''AAAAAAAA'', ?sb)"
    by (simp del: shuffle_from.simps hex_decode.simps
        add: shuffle_from_numeral shuffle_from_Suc0 draw_route_eq z list_update_Cons_numeral)
  have "generatePasswordBody draw_route ?sb example_params =
          Inr (shuffle_from draw_route 7 ''AAAAAAAA'' ?sb)"
    by (rule example_body [OF a b]) simp
  then show ?thesis
    by (simp only: generatePasswordFromSeed_route_def c map_sum.simps fst_conv)
qed

lemma seed_byte_all_zero: "\<forall>b \<in> set bs. b = 0 \<Longrightarrow> seed_byte bs q = 0"
  by (simp add: seed_byte_def)

lemma seed_byte_zero_seed: "seed_byte (hex_decode zero_seed) q = 0"
  by (rule seed_byte_all_zero) (simp add: hex_zero_seed)

lemma run_to_result:
  "generatePasswordFromSeed_run seed p = Inr (pw, g) \<Longrightarrow> generatePasswordFromSeed seed p = Inr pw"
  by (simp add: generatePasswordFromSeed_def)


subsection \<open>Seeds that give the same bytes\<close>




lemma route_first_byte:
  assumes "seed_byte (hex_decode s1) 0 = seed_byte (hex_decode s2) 0"
  shows "generatePasswordFromSeed_route s1 p = generatePasswordFromSeed_route s2 p"
proof -
  let ?R = "\<lambda>s t. s = hex_decode s1 \<and> t = hex_decode s2"
  have step: "\<And>s t. ?R s t \<Longrightarrow>
      fst (draw_route s) = fst (draw_route t) \<and> ?R (snd (draw_route s)) (snd (draw_route t))"
    using assms by (simp add: draw_route_eq)
  have r: "?R (hex_decode s1) (hex_decode s2)" by simp
  have "map_sum fst fst (generatePasswordBody draw_route (hex_decode s1) p) =
        map_sum fst fst (generatePasswordBody draw_route (hex_decode s2) p)"
    using step r by (rule sim_body)
  then show ?thesis by (simp only: generatePasswordFromSeed_route_def)
qed

lemma hex_00ff: "hex_decode ''00ff'' = [0, 255]"
  by (simp add: unhex_def)

section \<open>The claims\<close>

text \<open>
  C3. The four alphabets are fixed constants from which the ambiguous glyphs are meant to
  be left out: no \<open>O\<close> in Upper, no \<open>l\<close> in Lower, neither \<open>0\<close> nor \<open>1\<close> in Digit.
  The code's Upper and Digit alphabets are so; its Lower alphabet, whose comment reads
  "Excluding l", holds all 26 letters, \<open>l\<close> among them.
\<close>

theorem C3_alphabets:
  "CHR ''O'' \<notin> set CHARSETS_uppercase \<and> CHR ''l'' \<in> set CHARSETS_lowercase \<and>
   CHR ''0'' \<notin> set CHARSETS_numbers \<and> CHR ''1'' \<notin> set CHARSETS_numbers"
  by (simp add: CHARSETS_uppercase_def CHARSETS_lowercase_def CHARSETS_numbers_def)

text \<open>
  C6. For every seed that decodes to at least one byte and every valid specification, the
  library's \<open>generatePasswordFromSeed\<close> returns a password, and its length is exactly
  the requested length.
\<close>

theorem C6_length:
  assumes "hex_decode seed \<noteq> []" and "valid_params p"
  shows "\<exists>pw. generatePasswordFromSeed seed p = Inr pw \<and> int (length pw) = length_p p"
proof -
  from body_valid [OF assms(2), of draw_lib "createRandomGenerator seed"]
  obtain pw0 st5 where
    b: "generatePasswordBody draw_lib (createRandomGenerator seed) p =
          Inr (shuffle_from draw_lib (length pw0 - 1) pw0 st5)"
    and l: "length pw0 = nat (length_p p)"
    by blast
  have nn: "0 \<le> length_p p" using assms(2) by (simp add: valid_params_def)
  have "generatePasswordFromSeed seed p = Inr (fst (shuffle_from draw_lib (length pw0 - 1) pw0 st5))"
    by (simp add: generatePasswordFromSeed_def generatePasswordFromSeed_run_def b)
  moreover have "int (length (fst (shuffle_from draw_lib (length pw0 - 1) pw0 st5))) = length_p p"
    using l nn by (simp add: shuffle_from_length)
  ultimately show ?thesis by blast
qed

text \<open>The theorem of C6 at the documented scenario.\<close>

theorem C6_length_witness:
  "hex_decode zero_seed \<noteq> [] \<and> valid_params example_params \<and>
   (\<exists>pw. generatePasswordFromSeed zero_seed example_params = Inr pw \<and>
      int (length pw) = length_p example_params)"
  using C6_length [OF zero_seed_nonempty example_valid] zero_seed_nonempty example_valid
  by simp

text \<open>
  C7. For every seed that decodes to at least one byte and every valid specification, the
  returned password holds, for every enabled class, at least that class's minimum of
  characters of the class's alphabet.
\<close>

theorem C7_minimums:
  assumes "hex_decode seed \<noteq> []" and "valid_params p"
  shows "\<exists>pw. generatePasswordFromSeed seed p = Inr pw \<and>
     (includeUpper p \<longrightarrow> minUpper p \<le> int (count_in CHARSETS_uppercase pw)) \<and>
     (includeLower p \<longrightarrow> minLower p \<le> int (count_in CHARSETS_lowercase pw)) \<and>
     (includeNumbers p \<longrightarrow> minNumbers p \<le> int (count_in CHARSETS_numbers pw)) \<and>
     (includeSymbols p \<longrightarrow> minSymbols p \<le> int (count_in CHARSETS_symbols pw))"
proof -
  from body_valid [OF assms(2), of draw_lib "createRandomGenerator seed"]
  obtain pw0 st5 where
    b: "generatePasswordBody draw_lib (createRandomGenerator seed) p =
          Inr (shuffle_from draw_lib (length pw0 - 1) pw0 st5)"
    and k: "nat (minUpper p) \<le> count_in CHARSETS_uppercase pw0"
      "nat (minLower p) \<le> count_in CHARSETS_lowercase pw0"
      "nat (minNumbers p) \<le> count_in CHARSETS_numbers pw0"
      "nat (minSymbols p) \<le> count_in CHARSETS_symbols pw0"
    by blast
  let ?pw = "fst (shuffle_from draw_lib (length pw0 - 1) pw0 st5)"
  have r: "generatePasswordFromSeed seed p = Inr ?pw"
    by (simp add: generatePasswordFromSeed_def generatePasswordFromSeed_run_def b)
  have c: "\<And>a. count_in a ?pw = count_in a pw0"
    by (rule count_in_mset) (rule shuffle_from_mset_any)
  have "minUpper p \<le> int (count_in CHARSETS_uppercase ?pw)"
    "minLower p \<le> int (count_in CHARSETS_lowercase ?pw)"
    "minNumbers p \<le> int (count_in CHARSETS_numbers ?pw)"
    "minSymbols p \<le> int (count_in CHARSETS_symbols ?pw)"
    using k unfolding c by linarith+
  with r show ?thesis by blast
qed

text \<open>The theorem of C7 at the documented scenario.\<close>

theorem C7_minimums_witness:
  "hex_decode zero_seed \<noteq> [] \<and> valid_params example_params \<and>
   includeUpper example_params \<and> includeLower example_params \<and>
   includeNumbers example_params \<and> includeSymbols example_params \<and>
   (\<exists>pw. generatePasswordFromSeed zero_seed example_params = Inr pw \<and>
      2 \<le> int (count_in CHARSETS_uppercase pw) \<and> 0 \<le> int (count_in CHARSETS_lowercase pw) \<and>
      0 \<le> int (count_in CHARSETS_numbers pw) \<and> 0 \<le> int (count_in CHARSETS_symbols pw))"
  using C7_minimums [OF zero_seed_nonempty example_valid] zero_seed_nonempty example_valid
  by (simp add: example_params_def)

text \<open>
  C8. For every seed that decodes to at least one byte and every valid specification of
  length \<open>L\<close> at least 1, one call of the library's function starts with the cursor at 0,
  has it at \<open>L\<close> when the buffer of \<open>L\<close> characters is assembled, and leaves it at
  \<open>2 * L - 1\<close> after the shuffle: that many bytes were drawn, whichever classes are
  enabled.
\<close>

theorem C8_bytes_consumed:
  assumes "hex_decode seed \<noteq> []" and "valid_params p" and "1 \<le> length_p p"
  shows "position (createRandomGenerator seed) = 0 \<and>
     (\<exists>buffer g5 pw g.
        int (length buffer) = length_p p \<and> int (position g5) = length_p p \<and>
        shuffle_from draw_lib (length buffer - 1) buffer g5 = (pw, g) \<and>
        generatePasswordFromSeed_run seed p = Inr (pw, g) \<and>
        int (position g) = 2 * length_p p - 1)"
proof -
  from body_valid [OF assms(2), of draw_lib "createRandomGenerator seed" position]
  obtain pw0 st5 where
    b: "generatePasswordBody draw_lib (createRandomGenerator seed) p =
          Inr (shuffle_from draw_lib (length pw0 - 1) pw0 st5)"
    and l: "length pw0 = nat (length_p p)"
    and c: "position st5 = position (createRandomGenerator seed) + nat (length_p p)"
    using position_draw_lib by blast
  have z: "position (createRandomGenerator seed) = 0"
    by (simp add: createRandomGenerator_def)
  obtain pw g where s: "shuffle_from draw_lib (length pw0 - 1) pw0 st5 = (pw, g)"
    by (cases "shuffle_from draw_lib (length pw0 - 1) pw0 st5")
  have "position (snd (shuffle_from draw_lib (length pw0 - 1) pw0 st5)) =
          position st5 + (length pw0 - 1)"
    by (rule shuffle_from_count) (rule position_draw_lib)
  then have "int (position g) = 2 * length_p p - 1"
    using s c z l assms(3) by simp
  moreover have "generatePasswordFromSeed_run seed p = Inr (pw, g)"
    by (simp only: generatePasswordFromSeed_run_def b s)
  moreover have "int (length pw0) = length_p p" "int (position st5) = length_p p"
    using l c z assms(3) by simp_all
  ultimately show ?thesis using z s by blast
qed

text \<open>The theorem of C8 at the documented scenario: 15 bytes for length 8.\<close>

theorem C8_bytes_consumed_witness:
  "hex_decode zero_seed \<noteq> [] \<and> valid_params example_params \<and> 1 \<le> length_p example_params \<and>
   (\<exists>pw g. generatePasswordFromSeed_run zero_seed example_params = Inr (pw, g) \<and>
      int (position g) = 15)"
proof -
  have l: "1 \<le> length_p example_params" and e: "2 * length_p example_params - 1 = 15"
    by (simp_all add: example_params_def)
  from C8_bytes_consumed [OF zero_seed_nonempty example_valid l]
  have "\<exists>pw g. generatePasswordFromSeed_run zero_seed example_params = Inr (pw, g) \<and>
      int (position g) = 2 * length_p example_params - 1"
    by blast
  then show ?thesis
    unfolding e using zero_seed_nonempty example_valid l by blast
qed

text \<open>
  C2. For every seed that decodes to at least one byte, the generator returned by
  \<open>createRandomGenerator\<close> is a cursor: over any sequence of calls (of sizes \<open>ns\<close>) the
  byte emitted at position \<open>p\<close>, counted over all bytes emitted since construction, is
  \<open>seed[p mod len(seed)]\<close>; the position starts at 0, grows by one per byte and is never
  reset, so that after the calls it is the number of bytes emitted.
\<close>

theorem C2_cursor:
  assumes "hex_decode seed \<noteq> []"
    and "draws (createRandomGenerator seed) ns = (out, g)"
  shows "length out = sum_list ns \<and> position g = sum_list ns \<and>
     seedBytes g = hex_decode seed \<and>
     (\<forall>p < length out. out ! p = hex_decode seed ! (p mod length (hex_decode seed)))"
proof -
  from draws_spec [OF assms(2)] have
    g: "g = (createRandomGenerator seed)\<lparr>position :=
          position (createRandomGenerator seed) + sum_list ns\<rparr>"
    and l: "length out = sum_list ns"
    and n: "\<forall>k < sum_list ns. out ! k =
          seed_byte (seedBytes (createRandomGenerator seed)) (position (createRandomGenerator seed) + k)"
    by simp_all
  have "position g = sum_list ns" "seedBytes g = hex_decode seed"
    using g by (simp_all add: createRandomGenerator_def)
  moreover have "\<forall>p < length out. out ! p = hex_decode seed ! (p mod length (hex_decode seed))"
    using n l assms(1) by (simp add: createRandomGenerator_def seed_byte_def)
  ultimately show ?thesis using l by simp
qed

text \<open>The theorem of C2 for the seed 0001 and calls for one byte, then two.\<close>

theorem C2_cursor_witness:
  "hex_decode ''0001'' \<noteq> [] \<and>
   draws (createRandomGenerator ''0001'') [1, 2] =
     ([0, 1, 0], \<lparr>seedBytes = [0, 1], position = 3\<rparr>) \<and>
   length [0, 1, 0 :: 8 word] = sum_list [1, 2] \<and>
   position \<lparr>seedBytes = [0, 1], position = 3\<rparr> = sum_list [1, 2] \<and>
   [0, 1, 0 :: 8 word] ! 2 = hex_decode ''0001'' ! (2 mod length (hex_decode ''0001''))"
proof -
  have ne: "hex_decode ''0001'' \<noteq> []" by (simp only: hex_0001) simp
  note c = C2_cursor [OF ne draws_0001]
  have a: "length [0, 1, 0 :: 8 word] = sum_list [1, 2]"
    and b: "position \<lparr>seedBytes = [0, 1], position = 3\<rparr> = sum_list [1, 2]"
    using c by blast+
  have "\<forall>p < length [0, 1, 0 :: 8 word].
          [0, 1, 0 :: 8 word] ! p = hex_decode ''0001'' ! (p mod length (hex_decode ''0001''))"
    using c by blast
  moreover have "2 < length [0, 1, 0 :: 8 word]" by simp
  ultimately have d:
    "[0, 1, 0 :: 8 word] ! 2 = hex_decode ''0001'' ! (2 mod length (hex_decode ''0001''))"
    by blast
  show ?thesis using ne draws_0001 a b d by blast
qed

text \<open>
  C5. Validation comes before any drawing and in a fixed order, in the library's function
  and in the route's: with no class enabled the error is the no-class one, whatever the
  minimums; with a class enabled and minimums above the length it is the
  minimums-exceed-length one, even if a disabled class has a minimum; only then come the
  minimum-without-class errors, Upper first, then Lower, Numbers and Symbols. None of the
  results depends on the seed, and nothing is drawn before the failure: the body hands
  back the byte source it was given, whatever that source is, and the library's generator
  is still at position 0.
\<close>

theorem C5_validation_order:
  assumes "f = generatePasswordFromSeed \<or> f = generatePasswordFromSeed_route"
  shows
    "(\<not> includeUpper p \<and> \<not> includeLower p \<and> \<not> includeNumbers p \<and> \<not> includeSymbols p \<longrightarrow>
        f seed p = Inl NoClassSelected \<and>
        generatePasswordBody draw st p = Inl (NoClassSelected, st) \<and>
        generatePasswordFromSeed_run seed p =
          Inl (NoClassSelected, \<lparr>seedBytes = hex_decode seed, position = 0\<rparr>)) \<and>
     ((includeUpper p \<or> includeLower p \<or> includeNumbers p \<or> includeSymbols p) \<and>
      length_p p < minUpper p + minLower p + minNumbers p + minSymbols p \<longrightarrow>
        f seed p = Inl MinimumsExceedLength \<and>
        generatePasswordBody draw st p = Inl (MinimumsExceedLength, st) \<and>
        generatePasswordFromSeed_run seed p =
          Inl (MinimumsExceedLength, \<lparr>seedBytes = hex_decode seed, position = 0\<rparr>)) \<and>
     ((includeUpper p \<or> includeLower p \<or> includeNumbers p \<or> includeSymbols p) \<and>
      minUpper p + minLower p + minNumbers p + minSymbols p \<le> length_p p \<and>
      ((0 < minUpper p \<and> \<not> includeUpper p) \<or> (0 < minLower p \<and> \<not> includeLower p) \<or>
       (0 < minNumbers p \<and> \<not> includeNumbers p) \<or> (0 < minSymbols p \<and> \<not> includeSymbols p)) \<longrightarrow>
        f seed p =
          Inl (if 0 < minUpper p \<and> \<not> includeUpper p then UpperNotIncluded
               else if 0 < minLower p \<and> \<not> includeLower p then LowerNotIncluded
               else if 0 < minNumbers p \<and> \<not> includeNumbers p then NumbersNotIncluded
               else SymbolsNotIncluded) \<and>
        generatePasswordBody draw st p =
          Inl (if 0 < minUpper p \<and> \<not> includeUpper p then UpperNotIncluded
               else if 0 < minLower p \<and> \<not> includeLower p then LowerNotIncluded
               else if 0 < minNumbers p \<and> \<not> includeNumbers p then NumbersNotIncluded
               else SymbolsNotIncluded, st) \<and>
        generatePasswordFromSeed_run seed p =
          Inl (if 0 < minUpper p \<and> \<not> includeUpper p then UpperNotIncluded
               else if 0 < minLower p \<and> \<not> includeLower p then LowerNotIncluded
               else if 0 < minNumbers p \<and> \<not> includeNumbers p then NumbersNotIncluded
               else SymbolsNotIncluded, \<lparr>seedBytes = hex_decode seed, position = 0\<rparr>))"
proof -
  have f: "f seed p = map_sum fst fst (generatePasswordBody draw_lib (createRandomGenerator seed) p) \<or>
           f seed p = map_sum fst fst (generatePasswordBody draw_route (hex_decode seed) p)"
    using assms
    by (auto simp: generatePasswordFromSeed_def generatePasswordFromSeed_run_def
        generatePasswordFromSeed_route_def)
  have run: "generatePasswordFromSeed_run seed p =
      generatePasswordBody draw_lib \<lparr>seedBytes = hex_decode seed, position = 0\<rparr> p"
    by (simp only: generatePasswordFromSeed_run_def createRandomGenerator_def)
  show ?thesis
  proof (intro conjI impI)
    assume a: "\<not> includeUpper p \<and> \<not> includeLower p \<and> \<not> includeNumbers p \<and> \<not> includeSymbols p"
    show "f seed p = Inl NoClassSelected"
      using f a by (auto simp: body_no_class)
    show "generatePasswordBody draw st p = Inl (NoClassSelected, st)"
      using a by (simp add: body_no_class)
    show "generatePasswordFromSeed_run seed p =
          Inl (NoClassSelected, \<lparr>seedBytes = hex_decode seed, position = 0\<rparr>)"
      unfolding run using a by (simp add: body_no_class)
  next
    assume "(includeUpper p \<or> includeLower p \<or> includeNumbers p \<or> includeSymbols p) \<and>
      length_p p < minUpper p + minLower p + minNumbers p + minSymbols p"
    then have c1: "includeUpper p \<or> includeLower p \<or> includeNumbers p \<or> includeSymbols p"
      and c2: "length_p p < minUpper p + minLower p + minNumbers p + minSymbols p"
      by simp_all
    show "f seed p = Inl MinimumsExceedLength"
      using f by (auto simp: body_exceed [OF c1 c2])
    show "generatePasswordBody draw st p = Inl (MinimumsExceedLength, st)"
      by (rule body_exceed [OF c1 c2])
    show "generatePasswordFromSeed_run seed p =
          Inl (MinimumsExceedLength, \<lparr>seedBytes = hex_decode seed, position = 0\<rparr>)"
      unfolding run by (rule body_exceed [OF c1 c2])
  next
    let ?e = "if 0 < minUpper p \<and> \<not> includeUpper p then UpperNotIncluded
               else if 0 < minLower p \<and> \<not> includeLower p then LowerNotIncluded
               else if 0 < minNumbers p \<and> \<not> includeNumbers p then NumbersNotIncluded
               else SymbolsNotIncluded"
    assume "(includeUpper p \<or> includeLower p \<or> includeNumbers p \<or> includeSymbols p) \<and>
      minUpper p + minLower p + minNumbers p + minSymbols p \<le> length_p p \<and>
      ((0 < minUpper p \<and> \<not> includeUpper p) \<or> (0 < minLower p \<and> \<not> includeLower p) \<or>
       (0 < minNumbers p \<and> \<not> includeNumbers p) \<or> (0 < minSymbols p \<and> \<not> includeSymbols p))"
    then have c1: "includeUpper p \<or> includeLower p \<or> includeNumbers p \<or> includeSymbols p"
      and c2: "minUpper p + minLower p + minNumbers p + minSymbols p \<le> length_p p"
      and c3: "(0 < minUpper p \<and> \<not> includeUpper p) \<or> (0 < minLower p \<and> \<not> includeLower p) \<or>
       (0 < minNumbers p \<and> \<not> includeNumbers p) \<or> (0 < minSymbols p \<and> \<not> includeSymbols p)"
      by simp_all
    show "f seed p = Inl ?e"
      using f by (auto simp only: body_min_without_class [OF c1 c2 c3] map_sum.simps fst_conv)
    show "generatePasswordBody draw st p = Inl (?e, st)"
      by (rule body_min_without_class [OF c1 c2 c3])
    show "generatePasswordFromSeed_run seed p =
          Inl (?e, \<lparr>seedBytes = hex_decode seed, position = 0\<rparr>)"
      unfolding run by (rule body_min_without_class [OF c1 c2 c3])
  qed
qed

text \<open>
  The theorem of C5 at three specifications: no class enabled and minimums above the
  length; only Upper enabled, minimums of 5 and 5 for length 8, Lower disabled; Upper
  disabled with a minimum of 1. In each the generator is left at position 0.
\<close>

theorem C5_validation_order_witness:
  "generatePasswordFromSeed zero_seed
     (example_params\<lparr>minUpper := 9, includeUpper := False, includeLower := False,
        includeNumbers := False, includeSymbols := False\<rparr>) = Inl NoClassSelected \<and>
   generatePasswordFromSeed_run zero_seed
     (example_params\<lparr>minUpper := 9, includeUpper := False, includeLower := False,
        includeNumbers := False, includeSymbols := False\<rparr>) =
       Inl (NoClassSelected, \<lparr>seedBytes = hex_decode zero_seed, position = 0\<rparr>) \<and>
   generatePasswordFromSeed zero_seed
     (example_params\<lparr>minUpper := 5, minLower := 5, includeLower := False\<rparr>) =
       Inl MinimumsExceedLength \<and>
   generatePasswordFromSeed_run zero_seed
     (example_params\<lparr>minUpper := 5, minLower := 5, includeLower := False\<rparr>) =
       Inl (MinimumsExceedLength, \<lparr>seedBytes = hex_decode zero_seed, position = 0\<rparr>) \<and>
   generatePasswordFromSeed zero_seed
     (example_params\<lparr>minUpper := 1, includeUpper := False\<rparr>) = Inl UpperNotIncluded \<and>
   generatePasswordFromSeed_run zero_seed
     (example_params\<lparr>minUpper := 1, includeUpper := False\<rparr>) =
       Inl (UpperNotIncluded, \<lparr>seedBytes = hex_decode zero_seed, position = 0\<rparr>) \<and>
   generatePasswordFromSeed_route zero_seed
     (example_params\<lparr>minUpper := 0, minSymbols := 1, includeSymbols := False\<rparr>) =
       Inl SymbolsNotIncluded"
  using
    C5_validation_order [where f = generatePasswordFromSeed and seed = zero_seed and
      draw = draw_lib and st = "createRandomGenerator zero_seed" and
      p = "example_params\<lparr>minUpper := 9, includeUpper := False, includeLower := False,
        includeNumbers := False, includeSymbols := False\<rparr>"]
    C5_validation_order [where f = generatePasswordFromSeed and seed = zero_seed and
      draw = draw_lib and st = "createRandomGenerator zero_seed" and
      p = "example_params\<lparr>minUpper := 5, minLower := 5, includeLower := False\<rparr>"]
    C5_validation_order [where f = generatePasswordFromSeed and seed = zero_seed and
      draw = draw_lib and st = "createRandomGenerator zero_seed" and
      p = "example_params\<lparr>minUpper := 1, includeUpper := False\<rparr>"]
    C5_validation_order [where f = generatePasswordFromSeed_route and seed = zero_seed and
      draw = draw_route and st = "hex_decode zero_seed" and
      p = "example_params\<lparr>minUpper := 0, minSymbols := 1, includeSymbols := False\<rparr>"]
  by (simp add: example_params_def del: hex_decode.simps)

text \<open>
  C9. The documented scenario: the seed is 32 bytes of value 0 (a hex string of 64 zeros),
  the specification has length 8, an Upper minimum of 2, no other minimum, and all four
  classes enabled. Every drawn byte is 0, the call draws 15 bytes, and the library's
  function returns the string of eight \<open>A\<close>.
\<close>

theorem C9_zero_seed_scenario:
  "hex_decode zero_seed = replicate 32 0 \<and>
   seed_byte (hex_decode zero_seed) q = 0 \<and>
   generatePasswordFromSeed_run zero_seed example_params =
     Inr (''AAAAAAAA'', \<lparr>seedBytes = hex_decode zero_seed, position = 15\<rparr>) \<and>
   generatePasswordFromSeed zero_seed example_params = Inr ''AAAAAAAA''"
proof -
  have r: "generatePasswordFromSeed_run zero_seed example_params =
     Inr (''AAAAAAAA'', \<lparr>seedBytes = hex_decode zero_seed, position = 15\<rparr>)"
    by (rule lib_run_zero_bytes) (rule seed_byte_zero_seed)
  have h: "hex_decode zero_seed = replicate 32 0"
    by (simp only: hex_zero_seed) (simp add: numeral_eq_Suc)
  from h seed_byte_zero_seed r run_to_result [OF r] show ?thesis by blast
qed

text \<open>
  C1. The claim is that the route's private function and the library's exported function
  return the same password for every seed and every specification. They do not: for the
  seed 0001 and the specification of the documented scenario the route's function draws
  the byte 0 fifteen times and returns eight \<open>A\<close>, while the library's function draws
  0, 1, 0, 1, ... and returns \<open>ABABABBA\<close>.
\<close>

theorem C1_route_differs:
  "generatePasswordFromSeed_route ''0001'' example_params = Inr ''AAAAAAAA'' \<and>
   generatePasswordFromSeed ''0001'' example_params = Inr ''ABABABBA''"
proof -
  have "seed_byte (hex_decode ''0001'') 0 = 0"
    by (simp only: hex_0001) (simp add: seed_byte_def)
  then have "generatePasswordFromSeed_route ''0001'' example_params = Inr ''AAAAAAAA''"
    by (rule route_first_zero)
  with run_to_result [OF lib_run_0001] show ?thesis by blast
qed




text \<open>
  C10. In the route's function the helper \<open>randomValues\<close> indexes the seed from 0 on every
  call, and every draw asks for one byte: each drawn byte is the first byte of the decoded
  seed and the byte source does not change. So two seeds that decode to at least one byte
  and agree on the first byte give the same result for every specification.
\<close>

theorem C10_route_first_byte:
  assumes "hex_decode s1 \<noteq> []" and "hex_decode s2 \<noteq> []"
    and "hex_decode s1 ! 0 = hex_decode s2 ! 0"
  shows "randomValues_route (hex_decode s1) 1 = [hex_decode s1 ! 0] \<and>
     draw_route (hex_decode s1) = (hex_decode s1 ! 0, hex_decode s1) \<and>
     generatePasswordFromSeed_route s1 p = generatePasswordFromSeed_route s2 p"
proof -
  have b: "seed_byte (hex_decode s1) 0 = hex_decode s1 ! 0"
    "seed_byte (hex_decode s2) 0 = hex_decode s2 ! 0"
    using assms(1,2) by (simp_all add: seed_byte_def)
  have "randomValues_route (hex_decode s1) 1 = [hex_decode s1 ! 0]"
    using b(1) by (simp add: randomValues_route_def)
  moreover have "draw_route (hex_decode s1) = (hex_decode s1 ! 0, hex_decode s1)"
    using b(1) by (simp add: draw_route_eq)
  moreover have "generatePasswordFromSeed_route s1 p = generatePasswordFromSeed_route s2 p"
    by (rule route_first_byte) (simp add: b assms(3))
  ultimately show ?thesis by blast
qed

text \<open>
  The theorem of C10 for the seeds 0001 and 00ff, which differ in their second byte.
\<close>

theorem C10_route_first_byte_witness:
  "hex_decode ''0001'' \<noteq> [] \<and> hex_decode ''00ff'' \<noteq> [] \<and>
   hex_decode ''0001'' ! 0 = hex_decode ''00ff'' ! 0 \<and>
   hex_decode ''0001'' \<noteq> hex_decode ''00ff'' \<and>
   generatePasswordFromSeed_route ''0001'' example_params =
     generatePasswordFromSeed_route ''00ff'' example_params"
proof -
  have a: "hex_decode ''0001'' \<noteq> []" and b: "hex_decode ''00ff'' \<noteq> []"
    and c: "hex_decode ''0001'' ! 0 = hex_decode ''00ff'' ! 0"
    and d: "hex_decode ''0001'' \<noteq> hex_decode ''00ff''"
    by (simp_all only: hex_0001 hex_00ff) simp_all
  from C10_route_first_byte [OF a b c, of example_params] a b c d show ?thesis by blast
qed

end
